theory Spec2Isabelle
  imports Complex_Main "HOL-Library.AList" "HOL-Library.Sublist"
begin

section \<open>dBVoir: the download watcher of \<^verbatim>\<open>automation/dbvoir.py\<close>\<close>

text \<open>
  The module keeps two pieces of state: the dictionary \<^verbatim>\<open>pending_imports\<close> of the
  handler object (path to the time it was seen too new) and the module-level set
  \<^verbatim>\<open>processed_files\<close>. Everything else it does is an effect on the outside world:
  log records, a sleep, a subprocess run of beets, an HTTP request to Jellyfin. The
  embedding passes the state explicitly, records every effect in a trace, and takes what
  the outside world answers during one call (the clock, the file system, the subprocess,
  the HTTP request) as a record of observations.

  The handler methods are run one at a time: the interleaving of the observer thread with
  the poll loop is outside this model.
\<close>

subsection \<open>Configuration (\<^verbatim>\<open>CONFIG\<close>)\<close>

text \<open>
  \<^verbatim>\<open>os.getenv('JELLYFIN_API_KEY')\<close> is \<^verbatim>\<open>None\<close> when the variable is unset, so the key is an
  optional string; the other entries always hold a string. \<^verbatim>\<open>watch_delay\<close> is the result
  of \<^verbatim>\<open>int(...)\<close>, any integer. The watched directory is read by \<^verbatim>\<open>watch_directory\<close>
  only and is left out.
\<close>

record config =
  beets_binary :: string
  beets_config :: string
  jellyfin_url :: string
  jellyfin_api_key :: "string option"
  jellyfin_library_id :: string
  watch_delay :: int
  file_extensions :: "string set"

text \<open>The configuration of the source when no environment variable is set (the path of the
  beets configuration depends on where the script is installed).\<close>

definition default_config :: config where
  "default_config =
     \<lparr> beets_binary = ''beet'',
       beets_config = ''beets-config/config.yaml'',
       jellyfin_url = ''http://10.0.0.8:8096'',
       jellyfin_api_key = None,
       jellyfin_library_id = '''',
       watch_delay = 30,
       file_extensions = {''.mp3'', ''.flac'', ''.m4a'', ''.ogg'', ''.opus'', ''.wav'', ''.wma''} \<rparr>"

subsection \<open>Strings\<close>

text \<open>
  \<^verbatim>\<open>str.lower()\<close> on the ASCII letters. A character is a byte here; the bytes of a
  non-ASCII code point stay as they are, and no such code point lowers to a string of the
  allow-list, so membership in an ASCII allow-list is decided as Python decides it.
  The codes 65 to 90 of \<^verbatim>\<open>A\<close> to \<^verbatim>\<open>Z\<close> have the bit of value 32 clear: setting it adds 32.
\<close>

fun lower_char :: "char \<Rightarrow> char" where
  "lower_char (Char b0 b1 b2 b3 b4 b5 b6 b7) =
     (let n = (of_char (Char b0 b1 b2 b3 b4 b5 b6 b7) :: nat)
      in if 65 \<le> n \<and> n \<le> 90 then Char b0 b1 b2 b3 b4 True b6 b7
         else Char b0 b1 b2 b3 b4 b5 b6 b7)"

definition lower :: "string \<Rightarrow> string" where
  "lower s = map lower_char s"

text \<open>\<^verbatim>\<open>needle in haystack\<close> on strings: the needle occurs as a contiguous run.\<close>

fun contains :: "string \<Rightarrow> string \<Rightarrow> bool" where
  "contains needle [] = (needle = [])"
| "contains needle (c # cs) = (prefix needle (c # cs) \<or> contains needle cs)"

text \<open>Python's truth value of a string and of an optional string.\<close>

definition truthy :: "string \<Rightarrow> bool" where
  "truthy s = (s \<noteq> [])"

definition truthy_opt :: "string option \<Rightarrow> bool" where
  "truthy_opt k = (case k of None \<Rightarrow> False | Some s \<Rightarrow> truthy s)"

subsection \<open>\<^verbatim>\<open>pathlib\<close>\<close>

text \<open>
  The source turns every path string into a \<^verbatim>\<open>Path\<close> and reads \<^verbatim>\<open>str(path)\<close>,
  \<^verbatim>\<open>path.suffix\<close> and \<^verbatim>\<open>path.parent\<close>. What these return depends on the platform's
  path flavour, which is not code of the repository: the three functions are a parameter
  of the model, each taking the string the \<^verbatim>\<open>Path\<close> was built from.
\<close>

record pathlib =
  path_str :: "string \<Rightarrow> string"
  path_suffix :: "string \<Rightarrow> string"
  path_parent :: "string \<Rightarrow> string"

text \<open>
  One instance, used to run the model on concrete inputs: POSIX paths that are already in
  the form \<^verbatim>\<open>str(Path(p))\<close> gives back (no doubled or trailing slash). The suffix is
  CPython's: the final component from its last dot, when that dot is neither its first
  nor its last character.
\<close>

definition posix_name :: "string \<Rightarrow> string" where
  "posix_name p = rev (takeWhile (\<lambda>c. c \<noteq> CHR ''/'') (rev p))"

definition posix_suffix :: "string \<Rightarrow> string" where
  "posix_suffix p =
     (let name = posix_name p;
          after = rev (takeWhile (\<lambda>c. c \<noteq> CHR ''.'') (rev name))
      in if CHR ''.'' \<notin> set name then []
         else let i = length name - length after - 1
              in if 0 < i \<and> i < length name - 1 then drop i name else [])"

definition posix_parent :: "string \<Rightarrow> string" where
  "posix_parent p =
     (if CHR ''/'' \<notin> set p then ''.''
      else let d = rev (tl (dropWhile (\<lambda>c. c \<noteq> CHR ''/'') (rev p)))
           in if d = [] then ''/'' else d)"

definition posix :: pathlib where
  "posix = \<lparr> path_str = (\<lambda>p. p), path_suffix = posix_suffix, path_parent = posix_parent \<rparr>"

subsection \<open>The outside world during one call\<close>

datatype oserror = PermissionDenied | FileNotFound | OtherOSError

datatype exn = OSError oserror | KeyError

datatype outcome = Returned | Raised exn

text \<open>\<^verbatim>\<open>subprocess.run(..., capture_output=True, text=True, timeout=600)\<close>: the completed
  process (return code, standard output, standard error), the timeout, or any other
  exception (the binary is missing, for instance).\<close>

datatype run_result = Completed int string string | TimeoutExpired | LaunchError

text \<open>\<^verbatim>\<open>requests.post(..., timeout=10)\<close>: a response with its status code, or an exception.\<close>

datatype post_result = Response int | RequestError

text \<open>
  The observations of one call of a handler method or of the poll:
  \<^item> \<open>clock k\<close> is what the \<open>k\<close>-th call of \<^verbatim>\<open>time.time()\<close> returns (counted from 0);
  \<^item> \<open>path_exists p\<close>, \<open>stat_size p\<close>, \<open>stat_mtime p\<close> are what \<^verbatim>\<open>Path(p).exists()\<close> and
    the two \<^verbatim>\<open>Path(p).stat()\<close> calls return or raise: each is a system call of its own, so
    they need not agree with one another;
  \<^item> \<open>is_file p\<close> is what \<^verbatim>\<open>Path(p).is_file()\<close> returns or raises: it is a \<^verbatim>\<open>stat\<close> call
    that turns a missing file into \<^verbatim>\<open>False\<close> and lets other errors, a denied permission
    among them, through;
  \<^item> \<open>beet_run p\<close> is the result of the subprocess started while \<open>p\<close> is processed, and
    \<open>jellyfin_post p\<close> the result of the request sent after it.
  Within one call each path is looked at once, so functions of the path lose nothing.
  Timestamps are floats in the source and reals here.
\<close>

record env =
  clock :: "nat \<Rightarrow> real"
  path_exists :: "string \<Rightarrow> oserror + bool"
  stat_size :: "string \<Rightarrow> oserror + nat"
  stat_mtime :: "string \<Rightarrow> oserror + real"
  is_file :: "string \<Rightarrow> oserror + bool"
  beet_run :: "string \<Rightarrow> run_result"
  jellyfin_post :: "string \<Rightarrow> post_result"

subsection \<open>State and effects\<close>

datatype level = DEBUG | INFO | WARNING | ERROR

text \<open>
  The log records of the source, named by their format strings:
  \<^item> \<open>Waiting\<close>: \<^verbatim>\<open>File {path.name} is new, waiting before processing...\<close>
  \<^item> \<open>Locked\<close>: \<^verbatim>\<open>File {path.name} is locked, will retry later: {e}\<close>
  \<^item> \<open>Processing\<close>: \<^verbatim>\<open>Processing: {path.name}\<close>
  \<^item> \<open>Succeeded\<close>: \<^verbatim>\<open>Successfully processed: {path.name}\<close>
  \<^item> \<open>NonZeroExit\<close>: \<^verbatim>\<open>Beets import returned non-zero exit code for {path.name}\<close>
  \<^item> \<open>BeetsOutput\<close>, \<open>BeetsError\<close>: \<^verbatim>\<open>Beets output: {result.stdout}\<close>, \<^verbatim>\<open>Beets error: {result.stderr}\<close>
  \<^item> \<open>Timeout\<close>: \<^verbatim>\<open>Timeout processing {path.name}\<close>
  \<^item> \<open>ProcessingError\<close>: \<^verbatim>\<open>Error processing {path.name}: {e}\<close>
  \<^item> \<open>NoApiKey\<close>: \<^verbatim>\<open>Jellyfin API key not configured, skipping rescan trigger\<close>
  \<^item> \<open>NoUrl\<close>: \<^verbatim>\<open>Jellyfin URL not configured, skipping rescan trigger\<close>
  \<^item> \<open>RefreshOk\<close>: \<^verbatim>\<open>Jellyfin library refresh triggered successfully\<close>
  \<^item> \<open>RefreshStatus\<close>: \<^verbatim>\<open>Jellyfin rescan returned status {response.status_code}\<close>
  \<^item> \<open>RefreshFailed\<close>: \<^verbatim>\<open>Failed to trigger Jellyfin rescan: {e}\<close>
  The interpolated values are not modelled.
\<close>

datatype message =
    Waiting | Locked | Processing | Succeeded | NonZeroExit | BeetsOutput | BeetsError
  | Timeout | ProcessingError | NoApiKey | NoUrl | RefreshOk | RefreshStatus | RefreshFailed

text \<open>An effect on the outside world: a log record, \<^verbatim>\<open>time.sleep\<close>, the subprocess with
  its command line, the HTTP request with its URL, headers and query parameters.\<close>

datatype effect =
    Log level message
  | Sleep nat
  | Subprocess "string list"
  | HttpPost string "(string \<times> string) list" "(string \<times> string) list"

text \<open>
  \<^verbatim>\<open>pending_imports\<close> is a Python dictionary, which keeps its keys in insertion order: an
  association list, updated by \<^const>\<open>AList.update\<close> (in place when the key is there,
  at the end otherwise) and \<^const>\<open>AList.delete\<close>.
\<close>

record state =
  pending_imports :: "(string \<times> real) list"
  processed_files :: "string set"
  trace :: "effect list"

definition init_state :: state where
  "init_state = \<lparr> pending_imports = [], processed_files = {}, trace = [] \<rparr>"

definition emit :: "effect \<Rightarrow> state \<Rightarrow> state" where
  "emit e s = s\<lparr> trace := trace s @ [e] \<rparr>"

definition subprocess_runs :: "effect list \<Rightarrow> nat" where
  "subprocess_runs tr = length (filter (\<lambda>e. case e of Subprocess _ \<Rightarrow> True | _ \<Rightarrow> False) tr)"

definition http_posts :: "effect list \<Rightarrow> nat" where
  "http_posts tr = length (filter (\<lambda>e. case e of HttpPost _ _ _ \<Rightarrow> True | _ \<Rightarrow> False) tr)"

subsection \<open>\<^verbatim>\<open>trigger_jellyfin_rescan\<close>\<close>

definition trigger_jellyfin_rescan :: "config \<Rightarrow> post_result \<Rightarrow> state \<Rightarrow> outcome \<times> state" where
  "trigger_jellyfin_rescan cfg resp s =
     (if \<not> truthy_opt (jellyfin_api_key cfg) then (Returned, emit (Log WARNING NoApiKey) s)
      else if \<not> truthy (jellyfin_url cfg) then (Returned, emit (Log WARNING NoUrl) s)
      else
        let headers = [(''X-Emby-Token'', the (jellyfin_api_key cfg)),
                       (''Content-Type'', ''application/json'')];
            url = jellyfin_url cfg @ ''/Library/Refresh'';
            params = [(''Recursive'', ''true''), (''MetadataRefreshMode'', ''Default'')]
                     @ (if truthy (jellyfin_library_id cfg)
                        then [(''ItemIds'', jellyfin_library_id cfg)] else []);
            s1 = emit (HttpPost url headers params) s
        in case resp of
             Response code \<Rightarrow>
               if code = 200 \<or> code = 204 then (Returned, emit (Log INFO RefreshOk) s1)
               else (Returned, emit (Log WARNING RefreshStatus) s1)
           | RequestError \<Rightarrow> (Returned, emit (Log ERROR RefreshFailed) s1))"

subsection \<open>\<^verbatim>\<open>MusicProcessor.process_file\<close>\<close>

definition beets_cmd :: "config \<Rightarrow> string \<Rightarrow> string list" where
  "beets_cmd cfg import_path =
     [beets_binary cfg, ''-c'', beets_config cfg, ''import'', ''-q'', ''--noautotag'', ''--move'',
      import_path]"

text \<open>The test of line 145 on a completed run.\<close>

definition import_ok :: "int \<Rightarrow> string \<Rightarrow> bool" where
  "import_ok returncode stdout =
     (returncode = 0 \<or> contains ''Skipping'' stdout \<or> contains ''not match'' stdout)"

text \<open>
  The body of the \<^verbatim>\<open>try\<close> asks \<^verbatim>\<open>path.is_file()\<close> and then runs the subprocess;
  \<^verbatim>\<open>except subprocess.TimeoutExpired\<close> and \<^verbatim>\<open>except Exception\<close> turn every exception
  raised inside it into one error log record. When \<^verbatim>\<open>is_file\<close> raises, the subprocess is
  never started.
\<close>

definition process_file :: "config \<Rightarrow> pathlib \<Rightarrow> env \<Rightarrow> state \<Rightarrow> string \<Rightarrow> outcome \<times> state" where
  "process_file cfg pl env s file_path =
     (let path = path_str pl file_path in
      if path \<in> processed_files s then (Returned, s)
      else
        let s1 = emit (Log INFO Processing) s
        in case is_file env file_path of
             Inl e \<Rightarrow> (Returned, emit (Log ERROR ProcessingError) s1)
           | Inr regular \<Rightarrow>
              (let import_path = (if regular then path_parent pl file_path else path);
                   s2 = emit (Subprocess (beets_cmd cfg import_path)) s1
               in case beet_run env file_path of
                    Completed returncode stdout stderr \<Rightarrow>
                      if import_ok returncode stdout then
                        (let s3 = emit (Log INFO Succeeded) s2;
                             s4 = s3\<lparr> processed_files := insert path (processed_files s3) \<rparr>
                         in case trigger_jellyfin_rescan cfg (jellyfin_post env file_path) s4 of
                              (Returned, s5) \<Rightarrow> (Returned, s5)
                            | (Raised e, s5) \<Rightarrow> (Returned, emit (Log ERROR ProcessingError) s5))
                      else (Returned,
                            emit (Log DEBUG BeetsError)
                              (emit (Log DEBUG BeetsOutput) (emit (Log WARNING NonZeroExit) s2)))
                  | TimeoutExpired \<Rightarrow> (Returned, emit (Log ERROR Timeout) s2)
                  | LaunchError \<Rightarrow> (Returned, emit (Log ERROR ProcessingError) s2)))"

subsection \<open>\<^verbatim>\<open>MusicProcessor.handle_file\<close>\<close>

text \<open>
  The existence and size checks of line 89 stand before the \<^verbatim>\<open>try\<close>: what they raise
  leaves the method. The \<^verbatim>\<open>try\<close> covers the \<^verbatim>\<open>stat\<close> of line 98 and the call of
  \<^verbatim>\<open>process_file\<close>; its handler catches \<^verbatim>\<open>OSError\<close> (of which \<^verbatim>\<open>PermissionError\<close> is a
  subclass) and writes a debug record.
\<close>

definition handle_file :: "config \<Rightarrow> pathlib \<Rightarrow> env \<Rightarrow> state \<Rightarrow> string \<Rightarrow> outcome \<times> state" where
  "handle_file cfg pl env s file_path =
     (if lower (path_suffix pl file_path) \<notin> file_extensions cfg then (Returned, s)
      else case path_exists env file_path of
        Inl e \<Rightarrow> (Raised (OSError e), s)
      | Inr False \<Rightarrow> (Returned, s)
      | Inr True \<Rightarrow>
         (case stat_size env file_path of
            Inl e \<Rightarrow> (Raised (OSError e), s)
          | Inr st_size \<Rightarrow>
             if st_size = 0 then (Returned, s)
             else if path_str pl file_path \<in> processed_files s then (Returned, s)
             else
              (case stat_mtime env file_path of
                 Inl e \<Rightarrow> (Returned, emit (Log DEBUG Locked) s)
               | Inr mtime \<Rightarrow>
                  let age = clock env 0 - mtime in
                  if age < of_int (watch_delay cfg) then
                    (let s1 = emit (Log INFO Waiting) s
                     in (Returned,
                         s1\<lparr> pending_imports :=
                               AList.update (path_str pl file_path) (clock env 1)
                                 (pending_imports s1) \<rparr>))
                  else
                   (case process_file cfg pl env s file_path of
                      (Raised (OSError e), s') \<Rightarrow> (Returned, emit (Log DEBUG Locked) s')
                    | r \<Rightarrow> r))))"

subsection \<open>The event handlers\<close>

record fs_event =
  is_directory :: bool
  src_path :: string

definition on_created :: "config \<Rightarrow> pathlib \<Rightarrow> env \<Rightarrow> state \<Rightarrow> fs_event \<Rightarrow> outcome \<times> state" where
  "on_created cfg pl env s event =
     (if is_directory event then (Returned, s) else handle_file cfg pl env s (src_path event))"

definition on_modified :: "config \<Rightarrow> pathlib \<Rightarrow> env \<Rightarrow> state \<Rightarrow> fs_event \<Rightarrow> outcome \<times> state" where
  "on_modified cfg pl env s event =
     (if is_directory event then (Returned, s) else handle_file cfg pl env s (src_path event))"

text \<open>\<^verbatim>\<open>event.src_path in self.pending_imports\<close> looks the raw event path up among the keys.\<close>

definition on_closed :: "config \<Rightarrow> pathlib \<Rightarrow> env \<Rightarrow> state \<Rightarrow> fs_event \<Rightarrow> outcome \<times> state" where
  "on_closed cfg pl env s event =
     (if is_directory event then (Returned, s)
      else if src_path event \<in> fst ` set (pending_imports s) then
        process_file cfg pl env (emit (Sleep 2) s) (src_path event)
      else (Returned, s))"

subsection \<open>\<^verbatim>\<open>MusicProcessor.process_pending\<close>\<close>

text \<open>
  The first loop walks a snapshot of the dictionary's items and collects, in order, the
  paths to process. An \<^verbatim>\<open>OSError\<close> raised by one of the file-system calls skips the entry
  (\<^verbatim>\<open>continue\<close>).
\<close>

fun collect_ready :: "config \<Rightarrow> env \<Rightarrow> real \<Rightarrow> (string \<times> real) list \<Rightarrow> string list" where
  "collect_ready cfg env current_time [] = []"
| "collect_ready cfg env current_time ((file_path, added_time) # items) =
     (if current_time - added_time \<ge> of_int (watch_delay cfg) then
        (case path_exists env file_path of
           Inl e \<Rightarrow> collect_ready cfg env current_time items
         | Inr False \<Rightarrow> collect_ready cfg env current_time items
         | Inr True \<Rightarrow>
            (case stat_size env file_path of
               Inl e \<Rightarrow> collect_ready cfg env current_time items
             | Inr st_size \<Rightarrow>
                if st_size > 0 then
                  (case stat_mtime env file_path of
                     Inl e \<Rightarrow> collect_ready cfg env current_time items
                   | Inr mtime \<Rightarrow>
                      if current_time - mtime \<ge> 5
                      then file_path # collect_ready cfg env current_time items
                      else collect_ready cfg env current_time items)
                else collect_ready cfg env current_time items))
      else collect_ready cfg env current_time items)"

text \<open>
  The second loop: \<^verbatim>\<open>del self.pending_imports[file_path]\<close> raises \<^verbatim>\<open>KeyError\<close> when the
  key is gone; an exception leaving \<^verbatim>\<open>process_file\<close> would end the loop.
\<close>

fun dispatch_loop :: "config \<Rightarrow> pathlib \<Rightarrow> env \<Rightarrow> state \<Rightarrow> string list \<Rightarrow> outcome \<times> state" where
  "dispatch_loop cfg pl env s [] = (Returned, s)"
| "dispatch_loop cfg pl env s (file_path # to_process) =
     (if file_path \<in> fst ` set (pending_imports s) then
        (case process_file cfg pl env
                (s\<lparr> pending_imports := AList.delete file_path (pending_imports s) \<rparr>) file_path of
           (Returned, s') \<Rightarrow> dispatch_loop cfg pl env s' to_process
         | (Raised e, s') \<Rightarrow> (Raised e, s'))
      else (Raised KeyError, s))"

definition process_pending :: "config \<Rightarrow> pathlib \<Rightarrow> env \<Rightarrow> state \<Rightarrow> outcome \<times> state" where
  "process_pending cfg pl env s =
     (let current_time = clock env 0;
          to_process = collect_ready cfg env current_time (pending_imports s)
      in dispatch_loop cfg pl env s to_process)"

subsection \<open>Runs of the watcher\<close>

text \<open>
  One step of the running program is a file-system event delivered to the handler or one
  poll of the main loop, together with what the outside world answers during it. A run
  keeps the state an exception leaves behind.
\<close>

datatype action = Created fs_event | Modified fs_event | Closed fs_event | Poll

fun step :: "config \<Rightarrow> pathlib \<Rightarrow> state \<Rightarrow> action \<times> env \<Rightarrow> state" where
  "step cfg pl s (Created event, env) = snd (on_created cfg pl env s event)"
| "step cfg pl s (Modified event, env) = snd (on_modified cfg pl env s event)"
| "step cfg pl s (Closed event, env) = snd (on_closed cfg pl env s event)"
| "step cfg pl s (Poll, env) = snd (process_pending cfg pl env s)"

definition run :: "config \<Rightarrow> pathlib \<Rightarrow> state \<Rightarrow> (action \<times> env) list \<Rightarrow> state" where
  "run cfg pl s steps = foldl (step cfg pl) s steps"

subsection \<open>Reading traces, and the predicates the properties are stated with\<close>

text \<open>
  Counters on a trace: the subprocess runs, the HTTP requests, the records
  \<^verbatim>\<open>Successfully processed\<close>, and the records that \<^verbatim>\<open>trigger_jellyfin_rescan\<close> writes
  (each of its paths writes exactly one of these five, and nothing else writes them).
\<close>

definition successes :: "effect list \<Rightarrow> nat" where
  "successes tr = length (filter (\<lambda>e. e = Log INFO Succeeded) tr)"

definition rescan_record :: "effect \<Rightarrow> bool" where
  "rescan_record e =
     (e = Log WARNING NoApiKey \<or> e = Log WARNING NoUrl \<or> e = Log INFO RefreshOk \<or>
      e = Log WARNING RefreshStatus \<or> e = Log ERROR RefreshFailed)"

definition rescan_calls :: "effect list \<Rightarrow> nat" where
  "rescan_calls tr = length (filter rescan_record tr)"

text \<open>A subprocess result that line 145 takes as a success.\<close>

definition run_ok :: "run_result \<Rightarrow> bool" where
  "run_ok r = (case r of Completed returncode stdout stderr \<Rightarrow> import_ok returncode stdout | _ \<Rightarrow> False)"

text \<open>
  \<^verbatim>\<open>process_file\<close>, past its guard, reaches \<^verbatim>\<open>subprocess.run\<close> when \<^verbatim>\<open>path.is_file()\<close>
  returns; it reaches line 146 when moreover the result of the run is a success.
\<close>

definition launches :: "env \<Rightarrow> string \<Rightarrow> bool" where
  "launches env p = (case is_file env p of Inl e \<Rightarrow> False | Inr regular \<Rightarrow> True)"

definition import_succeeds :: "env \<Rightarrow> string \<Rightarrow> bool" where
  "import_succeeds env p = (launches env p \<and> run_ok (beet_run env p))"

text \<open>
  The promotion condition in the specification's words: the quiet period has passed since
  the entry was first seen, the file exists, its size is not zero, and its modification
  time lies at least the settle margin of 5 in the past.
\<close>

definition promotable :: "config \<Rightarrow> env \<Rightarrow> real \<Rightarrow> string \<times> real \<Rightarrow> bool" where
  "promotable cfg env now entry =
     (now - snd entry \<ge> of_int (watch_delay cfg) \<and>
      path_exists env (fst entry) = Inr True \<and>
      (case stat_size env (fst entry) of Inr n \<Rightarrow> n > 0 | Inl _ \<Rightarrow> False) \<and>
      (case stat_mtime env (fst entry) of Inr mtime \<Rightarrow> now - mtime \<ge> 5 | Inl _ \<Rightarrow> False))"

text \<open>Dispatching a list of paths one after the other.\<close>

definition dispatch_all :: "config \<Rightarrow> pathlib \<Rightarrow> env \<Rightarrow> state \<Rightarrow> string list \<Rightarrow> state" where
  "dispatch_all cfg pl env s paths = foldl (\<lambda>s p. snd (process_file cfg pl env s p)) s paths"


text \<open>The two guards at the head of \<^verbatim>\<open>trigger_jellyfin_rescan\<close> pass.\<close>

definition configured :: "config \<Rightarrow> bool" where
  "configured cfg = (truthy_opt (jellyfin_api_key cfg) \<and> truthy (jellyfin_url cfg))"

text \<open>
  A file system in which every path is a file of the given size and modification time,
  seen at a fixed time, with fixed results of the subprocess and of the request.
\<close>

definition world :: "real \<Rightarrow> nat \<Rightarrow> real \<Rightarrow> run_result \<Rightarrow> post_result \<Rightarrow> env" where
  "world now sz mtime r h =
     \<lparr> clock = (\<lambda>_. now), path_exists = (\<lambda>_. Inr True), stat_size = (\<lambda>_. Inr sz),
       stat_mtime = (\<lambda>_. Inr mtime), is_file = (\<lambda>_. Inr True), beet_run = (\<lambda>_. r),
       jellyfin_post = (\<lambda>_. h) \<rparr>"

text \<open>
  Every record \<^verbatim>\<open>Successfully processed\<close> of the trace stands for one path of
  \<^verbatim>\<open>processed_files\<close>, and the other way round.
\<close>

definition counted :: "state \<Rightarrow> bool" where
  "counted s = (finite (processed_files s) \<and> successes (trace s) = card (processed_files s))"

section \<open>Basic facts\<close>

text \<open>The definitions that running the model on a concrete input unfolds.\<close>

lemmas eval_defs =
  world_def posix_def default_config_def init_state_def lower_def posix_suffix_def posix_name_def
  posix_parent_def emit_def import_ok_def beets_cmd_def truthy_def truthy_opt_def Let_def

lemma emit_fields [simp]:
  "pending_imports (emit e s) = pending_imports s"
  "processed_files (emit e s) = processed_files s"
  "trace (emit e s) = trace s @ [e]"
  by (simp_all add: emit_def)

lemma counts_Nil [simp]:
  "subprocess_runs [] = 0" "http_posts [] = 0" "successes [] = 0" "rescan_calls [] = 0"
  by (simp_all add: subprocess_runs_def http_posts_def successes_def rescan_calls_def)

lemma counts_Cons [simp]:
  "subprocess_runs (e # tr) = (case e of Subprocess _ \<Rightarrow> 1 | _ \<Rightarrow> 0) + subprocess_runs tr"
  "http_posts (e # tr) = (case e of HttpPost _ _ _ \<Rightarrow> 1 | _ \<Rightarrow> 0) + http_posts tr"
  "successes (e # tr) = (if e = Log INFO Succeeded then 1 else 0) + successes tr"
  "rescan_calls (e # tr) = (if rescan_record e then 1 else 0) + rescan_calls tr"
  by (simp_all add: subprocess_runs_def http_posts_def successes_def rescan_calls_def
        split: effect.split)

lemma counts_append [simp]:
  "subprocess_runs (tr @ tr') = subprocess_runs tr + subprocess_runs tr'"
  "http_posts (tr @ tr') = http_posts tr + http_posts tr'"
  "successes (tr @ tr') = successes tr + successes tr'"
  "rescan_calls (tr @ tr') = rescan_calls tr + rescan_calls tr'"
  by (simp_all add: subprocess_runs_def http_posts_def successes_def rescan_calls_def)

lemma trigger_returns: "fst (trigger_jellyfin_rescan cfg resp s) = Returned"
  by (simp add: trigger_jellyfin_rescan_def Let_def split: post_result.split)

lemma trigger_state:
  "pending_imports (snd (trigger_jellyfin_rescan cfg resp s)) = pending_imports s"
  "processed_files (snd (trigger_jellyfin_rescan cfg resp s)) = processed_files s"
  by (simp_all add: trigger_jellyfin_rescan_def Let_def split: post_result.split)

lemma trigger_counts:
  "subprocess_runs (trace (snd (trigger_jellyfin_rescan cfg resp s))) = subprocess_runs (trace s)"
  "successes (trace (snd (trigger_jellyfin_rescan cfg resp s))) = successes (trace s)"
  "rescan_calls (trace (snd (trigger_jellyfin_rescan cfg resp s))) = rescan_calls (trace s) + 1"
  "http_posts (trace (snd (trigger_jellyfin_rescan cfg resp s))) =
     http_posts (trace s) + (if configured cfg then 1 else 0)"
  by (simp_all add: trigger_jellyfin_rescan_def Let_def rescan_record_def configured_def
        split: post_result.split)

lemma trigger_eq: 
  "trigger_jellyfin_rescan cfg resp s = (Returned, snd (trigger_jellyfin_rescan cfg resp s))"
  using trigger_returns [of cfg resp s] by (cases "trigger_jellyfin_rescan cfg resp s") simp

lemma trigger_case:
  "(case trigger_jellyfin_rescan cfg resp s of (Returned, s5) \<Rightarrow> f s5 | (Raised e, s5) \<Rightarrow> g e s5)
     = f (snd (trigger_jellyfin_rescan cfg resp s))"
proof (cases "trigger_jellyfin_rescan cfg resp s")
  case (Pair r s5)
  with trigger_returns [of cfg resp s] have "r = Returned" by simp
  with Pair show ?thesis by simp
qed


lemma process_file_returns: "fst (process_file cfg pl env s p) = Returned"
  by (simp add: process_file_def Let_def trigger_case split: run_result.split sum.split)

lemma process_file_eq:
  "process_file cfg pl env s p = (Returned, snd (process_file cfg pl env s p))"
  using process_file_returns [of cfg pl env s p] by (cases "process_file cfg pl env s p") simp

lemma process_file_pending:
  "pending_imports (snd (process_file cfg pl env s p)) = pending_imports s"
  by (simp add: process_file_def Let_def trigger_case trigger_state
        split: run_result.split sum.split)

lemma process_file_processed:
  "processed_files (snd (process_file cfg pl env s p)) =
     (if path_str pl p \<notin> processed_files s \<and> import_succeeds env p
      then insert (path_str pl p) (processed_files s) else processed_files s)"
  by (simp add: process_file_def Let_def trigger_case trigger_state run_ok_def
        import_succeeds_def launches_def split: run_result.split sum.split)

lemma process_file_counts:
  "subprocess_runs (trace (snd (process_file cfg pl env s p))) =
     subprocess_runs (trace s) +
       (if path_str pl p \<notin> processed_files s \<and> launches env p then 1 else 0)"
  "successes (trace (snd (process_file cfg pl env s p))) =
     successes (trace s) + (if path_str pl p \<notin> processed_files s \<and> import_succeeds env p then 1 else 0)"
  "rescan_calls (trace (snd (process_file cfg pl env s p))) =
     rescan_calls (trace s) + (if path_str pl p \<notin> processed_files s \<and> import_succeeds env p then 1 else 0)"
  "http_posts (trace (snd (process_file cfg pl env s p))) =
     http_posts (trace s) +
       (if path_str pl p \<notin> processed_files s \<and> import_succeeds env p \<and> configured cfg then 1 else 0)"
  by (simp_all add: process_file_def Let_def trigger_case trigger_counts run_ok_def rescan_record_def
        import_succeeds_def launches_def split: run_result.split sum.split)

lemma process_file_pending_update:
  "process_file cfg pl env (s\<lparr>pending_imports := x\<rparr>) p =
     (Returned, (snd (process_file cfg pl env s p))\<lparr>pending_imports := x\<rparr>)"
  by (simp add: process_file_def Let_def trigger_case emit_def trigger_jellyfin_rescan_def 
        split: run_result.split post_result.split sum.split)

text \<open>A path that exists but cannot be examined: the error is logged, nothing is run.\<close>

lemma process_file_is_file_raises:
  "process_file default_config posix
     ((world 100 5 60 (Completed 0 [] []) (Response 204))\<lparr>is_file := (\<lambda>_. Inl PermissionDenied)\<rparr>)
     init_state ''/dl/a.flac''
   = (Returned, init_state\<lparr>trace := [Log INFO Processing, Log ERROR ProcessingError]\<rparr>)"
  by (simp add: process_file_def eval_defs)

lemma handle_case:
  "(case process_file cfg pl env s p of
      (Raised (OSError e), s') \<Rightarrow> g e s'
    | r \<Rightarrow> r) = process_file cfg pl env s p"
proof (cases "process_file cfg pl env s p")
  case (Pair r s')
  with process_file_returns [of cfg pl env s p] have "r = Returned" by simp
  with Pair show ?thesis by simp
qed


lemma handle_file_pending_keys:
  "fst ` set (pending_imports (snd (handle_file cfg pl env s p)))
     \<subseteq> insert (path_str pl p) (fst ` set (pending_imports s))"
  by (auto simp add: handle_file_def Let_def handle_case process_file_pending dom_update
        split: sum.split bool.split)

lemma handle_file_processed:
  "processed_files s \<subseteq> processed_files (snd (handle_file cfg pl env s p))"
  by (auto simp add: handle_file_def Let_def handle_case process_file_processed
        split: sum.split bool.split)

lemma handle_file_distinct:
  "distinct (map fst (pending_imports s)) \<Longrightarrow>
   distinct (map fst (pending_imports (snd (handle_file cfg pl env s p))))"
  by (simp add: handle_file_def Let_def handle_case process_file_pending distinct_update
        split: sum.split bool.split)

lemma on_closed_pending:
  "pending_imports (snd (on_closed cfg pl env s ev)) = pending_imports s"
  by (simp add: on_closed_def process_file_pending)

lemma on_closed_processed:
  "processed_files s \<subseteq> processed_files (snd (on_closed cfg pl env s ev))"
  by (auto simp add: on_closed_def process_file_processed)

lemma collect_ready_filter:
  "collect_ready cfg env now items = map fst (filter (promotable cfg env now) items)"
  by (induction items) (auto simp add: promotable_def split: sum.split bool.split)

lemma dispatch_all_simps [simp]:
  "dispatch_all cfg pl env s [] = s"
  "dispatch_all cfg pl env s (p # ps) = dispatch_all cfg pl env (snd (process_file cfg pl env s p)) ps"
  by (simp_all add: dispatch_all_def)

lemma dispatch_all_pending:
  "pending_imports (dispatch_all cfg pl env s ps) = pending_imports s"
  by (induction ps arbitrary: s) (simp_all add: process_file_pending)

lemma dispatch_all_processed:
  "processed_files s \<subseteq> processed_files (dispatch_all cfg pl env s ps)"
proof (induction ps arbitrary: s)
  case Nil
  show ?case by simp
next
  case (Cons p ps)
  have "processed_files s \<subseteq> processed_files (snd (process_file cfg pl env s p))"
    by (auto simp add: process_file_processed)
  also have "\<dots> \<subseteq> processed_files (dispatch_all cfg pl env (snd (process_file cfg pl env s p)) ps)"
    by (rule Cons.IH)
  finally show ?case by simp
qed

lemma dispatch_all_pending_update:
  "dispatch_all cfg pl env (s\<lparr>pending_imports := x\<rparr>) ps =
     (dispatch_all cfg pl env s ps)\<lparr>pending_imports := x\<rparr>"
  by (induction ps arbitrary: s) (simp_all add: process_file_pending_update)

lemma delete_filter: "AList.delete k al = filter (\<lambda>e. fst e \<noteq> k) al"
  by (induction al) (auto simp add: AList.delete_eq)

lemma dispatch_loop_run:
  assumes "distinct ps" and "set ps \<subseteq> fst ` set (pending_imports s)"
  shows "dispatch_loop cfg pl env s ps =
           (Returned, (dispatch_all cfg pl env s ps)
                        \<lparr>pending_imports := filter (\<lambda>e. fst e \<notin> set ps) (pending_imports s)\<rparr>)"
  using assms
proof (induction ps arbitrary: s)
  case Nil
  then show ?case by simp
next
  case (Cons p ps)
  let ?d = "filter (\<lambda>e. fst e \<noteq> p) (pending_imports s)"
  let ?s1 = "(snd (process_file cfg pl env s p))\<lparr>pending_imports := ?d\<rparr>"
  from Cons.prems have p: "p \<in> fst ` set (pending_imports s)" and np: "p \<notin> set ps"
    and d: "distinct ps" by auto
  have sub: "set ps \<subseteq> fst ` set (pending_imports ?s1)"
  proof
    fix x assume x: "x \<in> set ps"
    with Cons.prems obtain b where "(x, b) \<in> set (pending_imports s)" by auto
    moreover from x np have "x \<noteq> p" by auto
    ultimately have "(x, b) \<in> set ?d" by simp
    then have "x \<in> fst ` set ?d" by force
    then show "x \<in> fst ` set (pending_imports ?s1)" by simp
  qed
  have step: "process_file cfg pl env (s\<lparr>pending_imports := AList.delete p (pending_imports s)\<rparr>) p
                = (Returned, ?s1)"
    by (simp add: process_file_pending_update delete_filter)
  have "dispatch_loop cfg pl env s (p # ps) = dispatch_loop cfg pl env ?s1 ps"
    using p step by simp
  also have "\<dots> = (Returned, (dispatch_all cfg pl env ?s1 ps)
                        \<lparr>pending_imports := filter (\<lambda>e. fst e \<notin> set ps) (pending_imports ?s1)\<rparr>)"
    by (rule Cons.IH [OF d sub])
  also have "filter (\<lambda>e. fst e \<notin> set ps) (pending_imports ?s1)
               = filter (\<lambda>e. fst e \<notin> set (p # ps)) (pending_imports s)"
    by (auto intro: filter_cong)
  finally show ?case by (simp add: dispatch_all_pending_update)
qed

lemma filter_not_promoted:
  assumes "distinct (map fst al)"
  shows "filter (\<lambda>e. fst e \<notin> set (map fst (filter P al))) al = filter (\<lambda>e. \<not> P e) al"
proof (rule filter_cong [OF refl])
  fix e assume e: "e \<in> set al"
  show "(fst e \<notin> set (map fst (filter P al))) = (\<not> P e)"
  proof
    assume "fst e \<notin> set (map fst (filter P al))"
    with e show "\<not> P e" by force
  next
    assume n: "\<not> P e"
    show "fst e \<notin> set (map fst (filter P al))"
    proof
      assume "fst e \<in> set (map fst (filter P al))"
      then obtain e' where e': "e' \<in> set al" "P e'" "fst e' = fst e" by auto
      with assms e have "e' = e" by (metis eq_key_imp_eq_value prod.collapse)
      with e' n show False by simp
    qed
  qed
qed

lemma process_pending_run:
  assumes "distinct (map fst (pending_imports s))"
  shows "process_pending cfg pl env s =
     (Returned,
      (dispatch_all cfg pl env s (map fst (filter (promotable cfg env (clock env 0)) (pending_imports s))))
        \<lparr>pending_imports := filter (\<lambda>e. \<not> promotable cfg env (clock env 0) e) (pending_imports s)\<rparr>)"
proof -
  let ?ps = "map fst (filter (promotable cfg env (clock env 0)) (pending_imports s))"
  have d: "distinct ?ps" using assms by (rule distinct_map_filter)
  have sub: "set ?ps \<subseteq> fst ` set (pending_imports s)" by auto
  show ?thesis
    unfolding process_pending_def Let_def collect_ready_filter
    by (simp only: dispatch_loop_run [OF d sub] filter_not_promoted [OF assms])
qed

lemma handle_file_raises_iff:
  "(fst (handle_file cfg pl env s p) = Raised x) =
     (lower (path_suffix pl p) \<in> file_extensions cfg \<and>
      (\<exists>e. x = OSError e \<and>
           (path_exists env p = Inl e \<or> path_exists env p = Inr True \<and> stat_size env p = Inl e)))"
  by (auto simp add: handle_file_def Let_def handle_case process_file_returns
        split: sum.split bool.split)

lemma handle_file_mtime_error_caught:
  assumes "stat_mtime env p = Inl e"
  shows "fst (handle_file cfg pl env s p) = Returned \<or>
         (\<exists>e'. path_exists env p = Inl e' \<or> stat_size env p = Inl e')"
  using assms by (auto simp add: handle_file_def split: sum.split bool.split)

lemma handle_file_error_no_mutation:
  assumes "path_exists env p = Inl e \<or> stat_size env p = Inl e \<or> stat_mtime env p = Inl e"
  shows "pending_imports (snd (handle_file cfg pl env s p)) = pending_imports s \<and>
         processed_files (snd (handle_file cfg pl env s p)) = processed_files s"
  using assms by (auto simp add: handle_file_def split: sum.split bool.split)

lemma dispatch_loop_processed:
  "processed_files s \<subseteq> processed_files (snd (dispatch_loop cfg pl env s ps))"
proof (induction ps arbitrary: s)
  case Nil
  show ?case by simp
next
  case (Cons p ps)
  let ?s0 = "s\<lparr>pending_imports := AList.delete p (pending_imports s)\<rparr>"
  let ?s1 = "snd (process_file cfg pl env ?s0 p)"
  show ?case
  proof (cases "p \<in> fst ` set (pending_imports s)")
    case True
    have "dispatch_loop cfg pl env s (p # ps) = dispatch_loop cfg pl env ?s1 ps"
      using True by (subst dispatch_loop.simps, subst process_file_eq) simp
    moreover have "processed_files s \<subseteq> processed_files ?s1"
      by (auto simp add: process_file_processed)
    moreover note Cons.IH [of ?s1]
    ultimately show ?thesis by auto
  next
    case False
    then show ?thesis by simp
  qed
qed

lemma process_pending_processed:
  "processed_files s \<subseteq> processed_files (snd (process_pending cfg pl env s))"
  by (simp add: process_pending_def dispatch_loop_processed)

lemma step_processed: "processed_files s \<subseteq> processed_files (step cfg pl s st)"
proof (cases st)
  case (Pair a e)
  then show ?thesis
    by (cases a)
       (simp_all add: on_created_def on_modified_def handle_file_processed on_closed_processed
          process_pending_processed)
qed

lemma run_processed: "processed_files s \<subseteq> processed_files (run cfg pl s steps)"
proof (induction steps arbitrary: s)
  case Nil
  show ?case by (simp add: run_def)
next
  case (Cons st steps)
  have "processed_files s \<subseteq> processed_files (step cfg pl s st)" by (rule step_processed)
  also have "\<dots> \<subseteq> processed_files (run cfg pl (step cfg pl s st) steps)" by (rule Cons.IH)
  finally show ?case by (simp add: run_def)
qed

lemma process_file_env:
  assumes "is_file env' = is_file env" and "beet_run env' = beet_run env"
      and "jellyfin_post env' = jellyfin_post env"
  shows "process_file cfg pl env' s p = process_file cfg pl env s p"
  unfolding process_file_def by (simp only: assms)







lemma counted_pending [simp]: "counted (s\<lparr>pending_imports := x\<rparr>) = counted s"
  by (simp add: counted_def)

lemma counted_emit: "e \<noteq> Log INFO Succeeded \<Longrightarrow> counted (emit e s) = counted s"
  by (simp add: counted_def)

lemma process_file_counted:
  assumes "counted s"
  shows "counted (snd (process_file cfg pl env s p))"
  using assms
  by (simp add: counted_def process_file_processed process_file_counts)

lemma handle_file_counted:
  assumes "counted s"
  shows "counted (snd (handle_file cfg pl env s p))"
  using assms
  by (simp add: handle_file_def Let_def handle_case process_file_counted counted_emit
        split: sum.split bool.split)

lemma dispatch_loop_counted:
  assumes "counted s"
  shows "counted (snd (dispatch_loop cfg pl env s ps))"
  using assms
proof (induction ps arbitrary: s)
  case Nil
  then show ?case by simp
next
  case (Cons p ps)
  let ?s0 = "s\<lparr>pending_imports := AList.delete p (pending_imports s)\<rparr>"
  let ?s1 = "snd (process_file cfg pl env ?s0 p)"
  show ?case
  proof (cases "p \<in> fst ` set (pending_imports s)")
    case True
    have "dispatch_loop cfg pl env s (p # ps) = dispatch_loop cfg pl env ?s1 ps"
      using True by (subst dispatch_loop.simps, subst process_file_eq) simp
    moreover have "counted ?s1"
      using Cons.prems by (simp add: process_file_counted)
    ultimately show ?thesis using Cons.IH [of ?s1] by simp
  next
    case False
    with Cons.prems show ?thesis by simp
  qed
qed

lemma step_counted:
  assumes "counted s"
  shows "counted (step cfg pl s st)"
proof (cases st)
  case (Pair a e)
  with assms show ?thesis
    by (cases a)
       (simp_all add: on_created_def on_modified_def on_closed_def handle_file_counted
          process_file_counted counted_emit process_pending_def dispatch_loop_counted)
qed

lemma run_counted:
  assumes "counted s"
  shows "counted (run cfg pl s steps)"
  using assms
proof (induction steps arbitrary: s)
  case Nil
  then show ?case by (simp add: run_def)
next
  case (Cons st steps)
  from Cons.prems have "counted (step cfg pl s st)" by (rule step_counted)
  from Cons.IH [OF this] show ?case by (simp add: run_def)
qed

lemma successes_eq_processed:
  "successes (trace (run cfg pl init_state steps)) = card (processed_files (run cfg pl init_state steps))"
proof -
  have "counted init_state" by (simp add: counted_def init_state_def)
  then have "counted (run cfg pl init_state steps)" by (rule run_counted)
  then show ?thesis by (simp add: counted_def)
qed

text \<open>The keys of \<^verbatim>\<open>pending_imports\<close> stay distinct, as those of a dictionary are.\<close>

lemma process_pending_distinct:
  assumes "distinct (map fst (pending_imports s))"
  shows "distinct (map fst (pending_imports (snd (process_pending cfg pl env s))))"
  using assms by (simp add: process_pending_run [OF assms] distinct_map_filter)

lemma step_distinct:
  assumes "distinct (map fst (pending_imports s))"
  shows "distinct (map fst (pending_imports (step cfg pl s st)))"
proof (cases st)
  case (Pair a e)
  with assms show ?thesis
    by (cases a)
       (simp_all add: on_created_def on_modified_def handle_file_distinct on_closed_pending
          process_pending_distinct)
qed

lemma run_distinct: "distinct (map fst (pending_imports (run cfg pl init_state steps)))"
proof -
  have "distinct (map fst (pending_imports s)) \<Longrightarrow>
        distinct (map fst (pending_imports (run cfg pl s steps)))" for s
  proof (induction steps arbitrary: s)
    case Nil
    then show ?case by (simp add: run_def)
  next
    case (Cons st steps)
    from Cons.prems have "distinct (map fst (pending_imports (step cfg pl s st)))"
      by (rule step_distinct)
    from Cons.IH [OF this] show ?case by (simp add: run_def)
  qed
  then show ?thesis by (simp add: init_state_def)
qed


section \<open>The properties\<close>

subsection \<open>Paths already processed\<close>



subsection \<open>Files outside the allow-list\<close>

text \<open>
  C2. For every path whose extension, lowered, is not in the configured allow-list of media
  extensions, \<^verbatim>\<open>handle_file\<close> returns at once: the state is the one it was called in, so no
  entry is added to \<^verbatim>\<open>pending_imports\<close> and nothing is dispatched (the trace has no new
  effect). The same holds for the two event handlers that call it.
\<close>

theorem non_media_ignored:
  assumes "lower (path_suffix pl p) \<notin> file_extensions cfg"
  shows "handle_file cfg pl env s p = (Returned, s) \<and>
         on_created cfg pl env s \<lparr>is_directory = d, src_path = p\<rparr> = (Returned, s) \<and>
         on_modified cfg pl env s \<lparr>is_directory = d, src_path = p\<rparr> = (Returned, s)"
  using assms by (simp add: handle_file_def on_created_def on_modified_def)

theorem non_media_ignored_witness:
  "lower (path_suffix posix ''/dl/Album/cover.JPG'') \<notin> file_extensions default_config \<and>
   handle_file default_config posix (world 100 5 60 (Completed 0 [] []) (Response 204)) init_state
     ''/dl/Album/cover.JPG'' = (Returned, init_state)"
proof -
  have h: "lower (path_suffix posix ''/dl/Album/cover.JPG'') \<notin> file_extensions default_config"
    by (simp add: eval_defs)
  from non_media_ignored [OF h] h show ?thesis by simp
qed

subsection \<open>Old enough, or too new\<close>

text \<open>
  C3. Take a path that passes the checks of \<^verbatim>\<open>handle_file\<close> (media extension, the file
  exists with a size that is not zero, not processed yet) and whose modification time can
  be read. With \<open>age = clock 0 - mtime\<close>:
  \<^item> if the age is at least \<^verbatim>\<open>watch_delay\<close>, the call is the call of \<^verbatim>\<open>process_file\<close> on the
    same state, and \<^verbatim>\<open>pending_imports\<close> is not touched; the subprocess is started when
    \<^verbatim>\<open>path.is_file()\<close> returns, and is not when it raises (\<^verbatim>\<open>process_file\<close> logs the error);
  \<^item> if the age is below \<^verbatim>\<open>watch_delay\<close>, the path is stored in \<^verbatim>\<open>pending_imports\<close> with the
    time read next (\<open>clock 1\<close>), whatever time an older entry held; the only effect is the
    log record, no subprocess is started.
\<close>

theorem handle_file_by_age:
  assumes "lower (path_suffix pl p) \<in> file_extensions cfg"
      and "path_exists env p = Inr True"
      and "stat_size env p = Inr n" and "n > 0"
      and "path_str pl p \<notin> processed_files s"
      and "stat_mtime env p = Inr mtime"
  shows "(clock env 0 - mtime \<ge> of_int (watch_delay cfg) \<longrightarrow>
            handle_file cfg pl env s p = process_file cfg pl env s p \<and>
            pending_imports (snd (handle_file cfg pl env s p)) = pending_imports s \<and>
            subprocess_runs (trace (snd (handle_file cfg pl env s p)))
              = subprocess_runs (trace s) + (if launches env p then 1 else 0)) \<and>
         (clock env 0 - mtime < of_int (watch_delay cfg) \<longrightarrow>
            handle_file cfg pl env s p =
              (Returned,
               s\<lparr> trace := trace s @ [Log INFO Waiting],
                   pending_imports :=
                     AList.update (path_str pl p) (clock env 1) (pending_imports s) \<rparr>) \<and>
            map_of (pending_imports (snd (handle_file cfg pl env s p)))
              = (map_of (pending_imports s))(path_str pl p \<mapsto> clock env 1) \<and>
            subprocess_runs (trace (snd (handle_file cfg pl env s p))) = subprocess_runs (trace s))"
proof -
  have old: "handle_file cfg pl env s p = process_file cfg pl env s p"
    if "clock env 0 - mtime \<ge> of_int (watch_delay cfg)"
    using assms that by (simp add: handle_file_def handle_case)
  have new: "handle_file cfg pl env s p =
              (Returned,
               s\<lparr> trace := trace s @ [Log INFO Waiting],
                   pending_imports :=
                     AList.update (path_str pl p) (clock env 1) (pending_imports s) \<rparr>)"
    if "clock env 0 - mtime < of_int (watch_delay cfg)"
    using assms that by (simp add: handle_file_def emit_def)
  show ?thesis
  proof (intro conjI impI)
    assume a: "clock env 0 - mtime \<ge> of_int (watch_delay cfg)"
    show "handle_file cfg pl env s p = process_file cfg pl env s p" by (rule old [OF a])
    show "pending_imports (snd (handle_file cfg pl env s p)) = pending_imports s"
      by (simp add: old [OF a] process_file_pending)
    show "subprocess_runs (trace (snd (handle_file cfg pl env s p)))
            = subprocess_runs (trace s) + (if launches env p then 1 else 0)"
      using assms(5) by (simp add: old [OF a] process_file_counts)
  next
    assume a: "clock env 0 - mtime < of_int (watch_delay cfg)"
    show "handle_file cfg pl env s p =
              (Returned,
               s\<lparr> trace := trace s @ [Log INFO Waiting],
                   pending_imports :=
                     AList.update (path_str pl p) (clock env 1) (pending_imports s) \<rparr>)"
      by (rule new [OF a])
    show "map_of (pending_imports (snd (handle_file cfg pl env s p)))
              = (map_of (pending_imports s))(path_str pl p \<mapsto> clock env 1)"
      by (simp add: new [OF a] update_conv')
    show "subprocess_runs (trace (snd (handle_file cfg pl env s p))) = subprocess_runs (trace s)"
      by (simp add: new [OF a])
  qed
qed

theorem handle_file_by_age_witness:
  "handle_file default_config posix (world 100 5 60 (Completed 0 [] []) (Response 204)) init_state
     ''/dl/track.flac''
   = (Returned,
      \<lparr> pending_imports = [], processed_files = {''/dl/track.flac''},
        trace = [Log INFO Processing,
                 Subprocess [''beet'', ''-c'', ''beets-config/config.yaml'', ''import'', ''-q'',
                             ''--noautotag'', ''--move'', ''/dl''],
                 Log INFO Succeeded, Log WARNING NoApiKey] \<rparr>) \<and>
   handle_file default_config posix (world 100 5 90 (Completed 0 [] []) (Response 204))
     (init_state\<lparr>pending_imports := [(''/dl/track.flac'', 95)]\<rparr>) ''/dl/track.flac''
   = (Returned,
      \<lparr> pending_imports = [(''/dl/track.flac'', 100)], processed_files = {},
        trace = [Log INFO Waiting] \<rparr>) \<and>
   handle_file default_config posix
     ((world 100 5 60 (Completed 0 [] []) (Response 204))\<lparr>is_file := (\<lambda>_. Inl PermissionDenied)\<rparr>)
     init_state ''/dl/track.flac''
   = (Returned, init_state\<lparr>trace := [Log INFO Processing, Log ERROR ProcessingError]\<rparr>)"
proof -
  let ?p = "''/dl/track.flac''"
  let ?old = "world 100 5 60 (Completed 0 [] []) (Response 204)"
  let ?new = "world 100 5 90 (Completed 0 [] []) (Response 204)"
  let ?s = "init_state\<lparr>pending_imports := [(''/dl/track.flac'', 95)]\<rparr>"
  have 1: "lower (path_suffix posix ?p) \<in> file_extensions default_config"
    by (simp add: eval_defs)
  have 2: "path_exists ?old ?p = Inr True" "path_exists ?new ?p = Inr True"
    by (simp_all add: world_def)
  have 3: "stat_size ?old ?p = Inr 5" "stat_size ?new ?p = Inr 5" "(5::nat) > 0"
    by (simp_all add: world_def)
  have 4: "path_str posix ?p \<notin> processed_files init_state"
    "path_str posix ?p \<notin> processed_files ?s"
    by (simp_all add: eval_defs)
  have 5: "stat_mtime ?old ?p = Inr 60" "stat_mtime ?new ?p = Inr 90"
    by (simp_all add: world_def)
  have 6: "clock ?old 0 - 60 \<ge> of_int (watch_delay default_config)"
    "clock ?new 0 - 90 < of_int (watch_delay default_config)"
    by (simp_all add: eval_defs)
  from handle_file_by_age [OF 1 2(1) 3(1) 3(3) 4(1) 5(1)] 6(1)
  have a: "handle_file default_config posix ?old init_state ?p
             = process_file default_config posix ?old init_state ?p" by blast
  from handle_file_by_age [OF 1 2(2) 3(2) 3(3) 4(2) 5(2)] 6(2)
  have b: "handle_file default_config posix ?new ?s ?p =
              (Returned,
               ?s\<lparr> trace := trace ?s @ [Log INFO Waiting],
                   pending_imports :=
                     AList.update (path_str posix ?p) (clock ?new 1) (pending_imports ?s) \<rparr>)"
    by blast
  have c: "handle_file default_config posix
     ((world 100 5 60 (Completed 0 [] []) (Response 204))\<lparr>is_file := (\<lambda>_. Inl PermissionDenied)\<rparr>)
     init_state ?p
   = (Returned, init_state\<lparr>trace := [Log INFO Processing, Log ERROR ProcessingError]\<rparr>)"
    by (simp add: handle_file_def process_file_def eval_defs)
  show ?thesis
    unfolding a b c
    by (simp add: process_file_def trigger_jellyfin_rescan_def eval_defs)
qed

subsection \<open>The poll\<close>

text \<open>
  C4. \<^verbatim>\<open>process_pending\<close>, on a dictionary (distinct keys), returns normally. With the
  time \<open>clock 0\<close> it reads, the entries it promotes are exactly the \<^const>\<open>promotable\<close>
  ones: the quiet period has passed since the stored time, the file exists, its size is
  greater than zero, and its modification time is at least 5 in the past. The promoted
  entries are removed and dispatched one after the other in the order of the dictionary;
  all other entries stay, in their order and with their times. At most one subprocess is
  started per promoted entry.
\<close>

theorem promote_ready_exact:
  assumes "distinct (map fst (pending_imports s))"
  shows "process_pending cfg pl env s =
           (Returned,
            (dispatch_all cfg pl env s
               (map fst (filter (promotable cfg env (clock env 0)) (pending_imports s))))
              \<lparr>pending_imports :=
                 filter (\<lambda>e. \<not> promotable cfg env (clock env 0) e) (pending_imports s)\<rparr>) \<and>
         pending_imports (snd (process_pending cfg pl env s))
           = filter (\<lambda>e. \<not> promotable cfg env (clock env 0) e) (pending_imports s) \<and>
         subprocess_runs (trace (snd (process_pending cfg pl env s)))
           \<le> subprocess_runs (trace s)
               + length (filter (promotable cfg env (clock env 0)) (pending_imports s))"
proof -
  have runs: "subprocess_runs (trace (dispatch_all cfg pl env t ps))
                \<le> subprocess_runs (trace t) + length ps" for t ps
  proof (induction ps arbitrary: t)
    case Nil
    show ?case by simp
  next
    case (Cons p ps)
    have "subprocess_runs (trace (snd (process_file cfg pl env t p))) \<le> subprocess_runs (trace t) + 1"
      by (simp add: process_file_counts)
    with Cons.IH [of "snd (process_file cfg pl env t p)"] show ?case by simp
  qed
  show ?thesis
    using runs [of s "map fst (filter (promotable cfg env (clock env 0)) (pending_imports s))"]
    by (simp add: process_pending_run [OF assms])
qed

theorem promote_ready_exact_witness:
  "process_pending default_config posix (world 100 5 60 (Completed 0 [] []) (Response 204))
     (init_state\<lparr>pending_imports := [(''/dl/a.flac'', 10), (''/dl/b.flac'', 90), (''/dl/c.flac'', 70)]\<rparr>)
   = (Returned,
      \<lparr> pending_imports = [(''/dl/b.flac'', 90)],
        processed_files = {''/dl/c.flac'', ''/dl/a.flac''},
        trace = [Log INFO Processing,
                 Subprocess [''beet'', ''-c'', ''beets-config/config.yaml'', ''import'', ''-q'',
                             ''--noautotag'', ''--move'', ''/dl''],
                 Log INFO Succeeded, Log WARNING NoApiKey,
                 Log INFO Processing,
                 Subprocess [''beet'', ''-c'', ''beets-config/config.yaml'', ''import'', ''-q'',
                             ''--noautotag'', ''--move'', ''/dl''],
                 Log INFO Succeeded, Log WARNING NoApiKey] \<rparr>) \<and>
   pending_imports (snd (process_pending default_config posix
       (world 100 5 97 (Completed 0 [] []) (Response 204))
       (init_state\<lparr>pending_imports := [(''/dl/a.flac'', 10)]\<rparr>))) = [(''/dl/a.flac'', 10)]"
proof -
  let ?s = "init_state\<lparr>pending_imports := [(''/dl/a.flac'', 10), (''/dl/b.flac'', 90), (''/dl/c.flac'', 70)]\<rparr>"
  let ?t = "init_state\<lparr>pending_imports := [(''/dl/a.flac'', 10)]\<rparr>"
  have d: "distinct (map fst (pending_imports ?s))" "distinct (map fst (pending_imports ?t))"
    by (simp_all add: init_state_def)
  note a = promote_ready_exact [OF d(1), of default_config posix "world 100 5 60 (Completed 0 [] []) (Response 204)",
             THEN conjunct1]
  note b = promote_ready_exact [OF d(2), of default_config posix "world 100 5 97 (Completed 0 [] []) (Response 204)",
             THEN conjunct2, THEN conjunct1]
  show ?thesis
    unfolding a b
    by (simp add: promotable_def process_file_def trigger_jellyfin_rescan_def eval_defs insert_commute)
qed

subsection \<open>Success and failure of the import\<close>

text \<open>
  C5. For a path not processed yet whose subprocess is started (\<^verbatim>\<open>path.is_file()\<close> has
  returned) and completes: the run counts as a success
  exactly when the return code is 0 or the captured standard output contains
  \<^verbatim>\<open>Skipping\<close> or \<^verbatim>\<open>not match\<close> (the standard error plays no part). On success the path
  is added to \<^verbatim>\<open>processed_files\<close> and \<^verbatim>\<open>trigger_jellyfin_rescan\<close> is called on the state
  so reached, once: the trace gains one success record and one record of the notifier.
  Otherwise \<^verbatim>\<open>processed_files\<close> is unchanged and the notifier is not called: no record
  of it and no HTTP request.
\<close>

theorem import_classification:
  assumes "path_str pl p \<notin> processed_files s"
      and "is_file env p = Inr regular"
      and "beet_run env p = Completed returncode stdout stderr"
  shows "(returncode = 0 \<or> contains ''Skipping'' stdout \<or> contains ''not match'' stdout \<longrightarrow>
            process_file cfg pl env s p =
              trigger_jellyfin_rescan cfg (jellyfin_post env p)
                (s\<lparr> trace := trace s @
                      [Log INFO Processing,
                       Subprocess (beets_cmd cfg
                         (if regular then path_parent pl p else path_str pl p)),
                       Log INFO Succeeded],
                    processed_files := insert (path_str pl p) (processed_files s) \<rparr>) \<and>
            processed_files (snd (process_file cfg pl env s p))
              = insert (path_str pl p) (processed_files s) \<and>
            successes (trace (snd (process_file cfg pl env s p))) = successes (trace s) + 1 \<and>
            rescan_calls (trace (snd (process_file cfg pl env s p))) = rescan_calls (trace s) + 1) \<and>
         (\<not> (returncode = 0 \<or> contains ''Skipping'' stdout \<or> contains ''not match'' stdout) \<longrightarrow>
            processed_files (snd (process_file cfg pl env s p)) = processed_files s \<and>
            successes (trace (snd (process_file cfg pl env s p))) = successes (trace s) \<and>
            rescan_calls (trace (snd (process_file cfg pl env s p))) = rescan_calls (trace s) \<and>
            http_posts (trace (snd (process_file cfg pl env s p))) = http_posts (trace s))"
proof -
  have ok: "import_succeeds env p
              = (returncode = 0 \<or> contains ''Skipping'' stdout \<or> contains ''not match'' stdout)"
    using assms(2,3) by (simp add: import_succeeds_def launches_def run_ok_def import_ok_def)
  let ?s4 = "s\<lparr> trace := trace s @
                      [Log INFO Processing,
                       Subprocess (beets_cmd cfg
                         (if regular then path_parent pl p else path_str pl p)),
                       Log INFO Succeeded],
                    processed_files := insert (path_str pl p) (processed_files s) \<rparr>"
  have eq: "process_file cfg pl env s p = trigger_jellyfin_rescan cfg (jellyfin_post env p) ?s4"
    if "returncode = 0 \<or> contains ''Skipping'' stdout \<or> contains ''not match'' stdout"
  proof -
    have "process_file cfg pl env s p
            = (Returned, snd (trigger_jellyfin_rescan cfg (jellyfin_post env p) ?s4))"
      using assms that
      by (simp add: process_file_def Let_def trigger_case import_ok_def emit_def)
    also have "\<dots> = trigger_jellyfin_rescan cfg (jellyfin_post env p) ?s4"
      by (rule trigger_eq [symmetric])
    finally show ?thesis .
  qed
  let ?ok = "returncode = 0 \<or> contains ''Skipping'' stdout \<or> contains ''not match'' stdout"
  have good: "processed_files (snd (process_file cfg pl env s p))
                = insert (path_str pl p) (processed_files s) \<and>
              successes (trace (snd (process_file cfg pl env s p))) = successes (trace s) + 1 \<and>
              rescan_calls (trace (snd (process_file cfg pl env s p))) = rescan_calls (trace s) + 1"
    if "?ok"
    using assms(1) that ok by (simp add: process_file_processed process_file_counts)
  have bad: "processed_files (snd (process_file cfg pl env s p)) = processed_files s \<and>
             successes (trace (snd (process_file cfg pl env s p))) = successes (trace s) \<and>
             rescan_calls (trace (snd (process_file cfg pl env s p))) = rescan_calls (trace s) \<and>
             http_posts (trace (snd (process_file cfg pl env s p))) = http_posts (trace s)"
    if "\<not> ?ok"
    using that ok by (simp add: process_file_processed process_file_counts)
  from eq good bad show ?thesis by blast
qed

theorem import_classification_witness:
  "process_file default_config posix (world 100 5 60 (Completed 1 ''Skipping.'' []) (Response 204))
      init_state ''/dl/a.flac''
   = (Returned,
      \<lparr> pending_imports = [], processed_files = {''/dl/a.flac''},
        trace = [Log INFO Processing,
                 Subprocess [''beet'', ''-c'', ''beets-config/config.yaml'', ''import'', ''-q'',
                             ''--noautotag'', ''--move'', ''/dl''],
                 Log INFO Succeeded, Log WARNING NoApiKey] \<rparr>) \<and>
   processed_files (snd (process_file default_config posix
      (world 100 5 60 (Completed 1 ''no such file'' ''Skipping.'') (Response 204)) init_state ''/dl/a.flac''))
   = {}"
proof -
  have a: "path_str posix ''/dl/a.flac'' \<notin> processed_files init_state"
    by (simp add: eval_defs)
  have f: "is_file (world 100 5 60 (Completed 1 ''Skipping.'' []) (Response 204)) ''/dl/a.flac'' = Inr True"
    "is_file (world 100 5 60 (Completed 1 ''no such file'' ''Skipping.'') (Response 204)) ''/dl/a.flac'' = Inr True"
    by (simp_all add: world_def)
  have b: "beet_run (world 100 5 60 (Completed 1 ''Skipping.'' []) (Response 204)) ''/dl/a.flac''
             = Completed 1 ''Skipping.'' []"
    by (simp add: world_def)
  have b': "beet_run (world 100 5 60 (Completed 1 ''no such file'' ''Skipping.'') (Response 204)) ''/dl/a.flac''
             = Completed 1 ''no such file'' ''Skipping.''"
    by (simp add: world_def)
  have c: "contains ''Skipping'' ''Skipping.''" by simp
  have d: "\<not> ((1::int) = 0 \<or> contains ''Skipping'' ''no such file'' \<or> contains ''not match'' ''no such file'')"
    by simp
  from import_classification [OF a f(1) b, of default_config] c
  have "process_file default_config posix (world 100 5 60 (Completed 1 ''Skipping.'' []) (Response 204))
      init_state ''/dl/a.flac'' =
      trigger_jellyfin_rescan default_config (jellyfin_post (world 100 5 60 (Completed 1 ''Skipping.'' []) (Response 204)) ''/dl/a.flac'')
                (init_state\<lparr> trace := trace init_state @
                      [Log INFO Processing,
                       Subprocess (beets_cmd default_config
                         (if True then path_parent posix ''/dl/a.flac'' else path_str posix ''/dl/a.flac'')),
                       Log INFO Succeeded],
                    processed_files := insert (path_str posix ''/dl/a.flac'') (processed_files init_state) \<rparr>)"
    by blast
  moreover from import_classification [OF a f(2) b', of default_config] d
  have "processed_files (snd (process_file default_config posix
      (world 100 5 60 (Completed 1 ''no such file'' ''Skipping.'') (Response 204)) init_state ''/dl/a.flac''))
     = processed_files init_state" by blast
  ultimately show ?thesis
    by (simp add: trigger_jellyfin_rescan_def eval_defs)
qed

subsection \<open>Timeout and launch failure of the import\<close>

text \<open>
  C6. When the subprocess times out or raises an exception at its launch, or when
  \<^verbatim>\<open>path.is_file()\<close> raises before it, \<^verbatim>\<open>process_file\<close> returns normally, \<^verbatim>\<open>processed_files\<close> and \<^verbatim>\<open>pending_imports\<close> are what they were, and no
  rescan is triggered (no record of the notifier, no HTTP request, no success record).
\<close>

theorem timeout_leaves_state:
  assumes "beet_run env p = TimeoutExpired \<or> beet_run env p = LaunchError \<or>
           is_file env p = Inl e"
  shows "fst (process_file cfg pl env s p) = Returned \<and>
         processed_files (snd (process_file cfg pl env s p)) = processed_files s \<and>
         pending_imports (snd (process_file cfg pl env s p)) = pending_imports s \<and>
         rescan_calls (trace (snd (process_file cfg pl env s p))) = rescan_calls (trace s) \<and>
         http_posts (trace (snd (process_file cfg pl env s p))) = http_posts (trace s) \<and>
         successes (trace (snd (process_file cfg pl env s p))) = successes (trace s)"
  using assms
  by (auto simp add: process_file_returns process_file_processed process_file_pending
        process_file_counts run_ok_def import_succeeds_def launches_def)

theorem timeout_leaves_state_witness:
  "beet_run (world 100 5 60 TimeoutExpired (Response 204)) ''/dl/a.flac'' = TimeoutExpired \<and>
   process_file default_config posix (world 100 5 60 TimeoutExpired (Response 204)) init_state ''/dl/a.flac''
     = (Returned, init_state\<lparr>trace :=
          [Log INFO Processing,
           Subprocess [''beet'', ''-c'', ''beets-config/config.yaml'', ''import'', ''-q'',
                       ''--noautotag'', ''--move'', ''/dl''],
           Log ERROR Timeout]\<rparr>) \<and>
   processed_files (snd (process_file default_config posix (world 100 5 60 TimeoutExpired (Response 204))
      init_state ''/dl/a.flac'')) = processed_files init_state"
proof -
  have h: "beet_run (world 100 5 60 TimeoutExpired (Response 204)) ''/dl/a.flac'' = TimeoutExpired"
    by (simp add: world_def)
  have e: "process_file default_config posix (world 100 5 60 TimeoutExpired (Response 204)) init_state ''/dl/a.flac''
     = (Returned, init_state\<lparr>trace :=
          [Log INFO Processing,
           Subprocess [''beet'', ''-c'', ''beets-config/config.yaml'', ''import'', ''-q'',
                       ''--noautotag'', ''--move'', ''/dl''],
           Log ERROR Timeout]\<rparr>)"
    by (simp add: process_file_def eval_defs)
  from timeout_leaves_state [OF disjI1, OF h, of default_config posix init_state] h e
  show ?thesis by simp
qed

subsection \<open>An error of the file system in \<^verbatim>\<open>handle_file\<close>\<close>

text \<open>
  C7. The specification has every \<^verbatim>\<open>OSError\<close> raised by a \<^verbatim>\<open>stat\<close> call of \<^verbatim>\<open>handle_file\<close>
  swallowed, with no change of state. The \<^verbatim>\<open>stat\<close> of line 98 is inside the \<^verbatim>\<open>try\<close> and is
  swallowed (\<open>handle_file_mtime_error_caught\<close>), and no such error changes
  \<^verbatim>\<open>pending_imports\<close> or \<^verbatim>\<open>processed_files\<close> (\<open>handle_file_error_no_mutation\<close>). But the
  \<^verbatim>\<open>exists\<close> and \<^verbatim>\<open>stat\<close> calls of line 89 stand before the \<^verbatim>\<open>try\<close>: what they raise leaves
  \<^verbatim>\<open>handle_file\<close> (\<open>handle_file_raises_iff\<close>). The theorem runs the code on a media
  file that exists and whose size cannot be read: the permission error reaches the caller.
  \<^verbatim>\<open>process_pending\<close> makes the same two calls inside its \<^verbatim>\<open>try\<close>.
\<close>

theorem handle_file_stat_error_escapes:
  "handle_file default_config posix
     ((world 100 5 60 (Completed 0 [] []) (Response 204))\<lparr>stat_size := (\<lambda>_. Inl PermissionDenied)\<rparr>)
     init_state ''/dl/a.flac''
   = (Raised (OSError PermissionDenied), init_state)"
  by (simp add: handle_file_def eval_defs)

subsection \<open>The rescan notifier\<close>

text \<open>
  C8. \<^verbatim>\<open>trigger_jellyfin_rescan\<close> always returns normally, whatever the request does
  (any status code, or an exception such as a transport error or a timeout), and never
  changes \<^verbatim>\<open>processed_files\<close> or \<^verbatim>\<open>pending_imports\<close>. When the API key or the URL is
  missing, all it does is write one warning record; otherwise it sends one request.
  Whether a path is in \<^verbatim>\<open>processed_files\<close> after \<^verbatim>\<open>process_file\<close> depends on the state before
  and on the import only (\<^const>\<open>import_succeeds\<close>), not on the notifier's configuration
  or outcome.
\<close>

theorem rescan_never_raises:
  "fst (trigger_jellyfin_rescan cfg resp s) = Returned \<and>
   processed_files (snd (trigger_jellyfin_rescan cfg resp s)) = processed_files s \<and>
   pending_imports (snd (trigger_jellyfin_rescan cfg resp s)) = pending_imports s \<and>
   (if truthy_opt (jellyfin_api_key cfg) \<and> truthy (jellyfin_url cfg)
    then http_posts (trace (snd (trigger_jellyfin_rescan cfg resp s))) = http_posts (trace s) + 1
    else snd (trigger_jellyfin_rescan cfg resp s) =
           s\<lparr>trace := trace s @
                [Log WARNING (if truthy_opt (jellyfin_api_key cfg) then NoUrl else NoApiKey)]\<rparr>) \<and>
   (path_str pl p \<in> processed_files (snd (process_file cfg pl env s p))) =
     (path_str pl p \<in> processed_files s \<or> import_succeeds env p)"
proof -
  have "truthy_opt (jellyfin_api_key cfg) \<and> truthy (jellyfin_url cfg) \<Longrightarrow>
        http_posts (trace (snd (trigger_jellyfin_rescan cfg resp s))) = http_posts (trace s) + 1"
    by (simp add: trigger_counts configured_def)
  moreover have "\<not> (truthy_opt (jellyfin_api_key cfg) \<and> truthy (jellyfin_url cfg)) \<Longrightarrow>
        snd (trigger_jellyfin_rescan cfg resp s) =
           s\<lparr>trace := trace s @
                [Log WARNING (if truthy_opt (jellyfin_api_key cfg) then NoUrl else NoApiKey)]\<rparr>"
    by (auto simp add: trigger_jellyfin_rescan_def emit_def)
  moreover have "(path_str pl p \<in> processed_files (snd (process_file cfg pl env s p))) =
     (path_str pl p \<in> processed_files s \<or> import_succeeds env p)"
    by (auto simp add: process_file_processed)
  ultimately show ?thesis
    by (simp add: trigger_returns trigger_state)
qed

theorem rescan_never_raises_witness:
  "trigger_jellyfin_rescan default_config RequestError init_state
     = (Returned, init_state\<lparr>trace := [Log WARNING NoApiKey]\<rparr>) \<and>
   fst (trigger_jellyfin_rescan (default_config\<lparr>jellyfin_api_key := Some ''secret''\<rparr>) RequestError
          (init_state\<lparr>processed_files := {''/dl/a.flac''}\<rparr>)) = Returned \<and>
   processed_files (snd (trigger_jellyfin_rescan (default_config\<lparr>jellyfin_api_key := Some ''secret''\<rparr>)
          RequestError (init_state\<lparr>processed_files := {''/dl/a.flac''}\<rparr>))) = {''/dl/a.flac''} \<and>
   http_posts (trace (snd (trigger_jellyfin_rescan (default_config\<lparr>jellyfin_api_key := Some ''secret''\<rparr>)
          RequestError (init_state\<lparr>processed_files := {''/dl/a.flac''}\<rparr>)))) = 1"
proof -
  let ?env = "world 100 5 60 (Completed 0 [] []) RequestError"
  have a: "trigger_jellyfin_rescan default_config RequestError init_state
     = (Returned, init_state\<lparr>trace := [Log WARNING NoApiKey]\<rparr>)"
    using rescan_never_raises [of default_config RequestError init_state posix "''/dl/a.flac''" ?env]
    by (cases "trigger_jellyfin_rescan default_config RequestError init_state")
       (simp add: eval_defs)
  show ?thesis
    using a rescan_never_raises [of "default_config\<lparr>jellyfin_api_key := Some ''secret''\<rparr>" RequestError
                     "init_state\<lparr>processed_files := {''/dl/a.flac''}\<rparr>" posix "''/dl/a.flac''" ?env]
    by (simp add: eval_defs)
qed

subsection \<open>\<^verbatim>\<open>processed_files\<close> only grows\<close>

text \<open>
  C9. No operation removes a path from \<^verbatim>\<open>processed_files\<close>: the set after
  \<^verbatim>\<open>handle_file\<close>, \<^verbatim>\<open>process_file\<close>, \<^verbatim>\<open>on_closed\<close>, \<^verbatim>\<open>process_pending\<close> or
  \<^verbatim>\<open>trigger_jellyfin_rescan\<close> contains the set before, and so does the set after any run
  of events and polls.
\<close>

theorem processed_record_grows:
  "processed_files s \<subseteq> processed_files (snd (handle_file cfg pl env s p)) \<and>
   processed_files s \<subseteq> processed_files (snd (process_file cfg pl env s p)) \<and>
   processed_files s \<subseteq> processed_files (snd (on_closed cfg pl env s event)) \<and>
   processed_files s \<subseteq> processed_files (snd (process_pending cfg pl env s)) \<and>
   processed_files s \<subseteq> processed_files (snd (trigger_jellyfin_rescan cfg resp s)) \<and>
   processed_files s \<subseteq> processed_files (run cfg pl s steps)"
  by (auto simp add: process_file_processed trigger_state
        intro: subsetD [OF handle_file_processed] subsetD [OF on_closed_processed]
               subsetD [OF process_pending_processed] subsetD [OF run_processed])

theorem processed_record_grows_witness:
  "processed_files (init_state\<lparr>processed_files := {''/dl/old.flac''}\<rparr>)
     \<subseteq> processed_files
         (run default_config posix (init_state\<lparr>processed_files := {''/dl/old.flac''}\<rparr>)
            [(Created \<lparr>is_directory = False, src_path = ''/dl/a.flac''\<rparr>,
              world 100 5 60 (Completed 0 [] []) RequestError),
             (Poll, world 200 5 60 (Completed 1 [] []) RequestError)]) \<and>
   processed_files
         (run default_config posix (init_state\<lparr>processed_files := {''/dl/old.flac''}\<rparr>)
            [(Created \<lparr>is_directory = False, src_path = ''/dl/a.flac''\<rparr>,
              world 100 5 60 (Completed 0 [] []) RequestError),
             (Poll, world 200 5 60 (Completed 1 [] []) RequestError)])
     = {''/dl/a.flac'', ''/dl/old.flac''}"
proof -
  have "processed_files
         (run default_config posix (init_state\<lparr>processed_files := {''/dl/old.flac''}\<rparr>)
            [(Created \<lparr>is_directory = False, src_path = ''/dl/a.flac''\<rparr>,
              world 100 5 60 (Completed 0 [] []) RequestError),
             (Poll, world 200 5 60 (Completed 1 [] []) RequestError)])
     = {''/dl/a.flac'', ''/dl/old.flac''}"
    by (simp add: run_def on_created_def handle_file_def process_file_def process_pending_def
          trigger_jellyfin_rescan_def eval_defs)
  with processed_record_grows [of "init_state\<lparr>processed_files := {''/dl/old.flac''}\<rparr>"
      default_config posix _ _ _ _ "[(Created \<lparr>is_directory = False, src_path = ''/dl/a.flac''\<rparr>,
              world 100 5 60 (Completed 0 [] []) RequestError),
             (Poll, world 200 5 60 (Completed 1 [] []) RequestError)]"]
  show ?thesis by (simp only: simp_thms)
qed

subsection \<open>The close event\<close>

text \<open>
  C10. On a close event that is not for a directory and whose path is a key of
  \<^verbatim>\<open>pending_imports\<close>, \<^verbatim>\<open>on_closed\<close> sleeps its two seconds and calls \<^verbatim>\<open>process_file\<close>. The
  result does not depend on the clock or on the existence, size or modification time of
  the file: none of them is read. If the path is not processed yet the subprocess is
  started, unless \<^verbatim>\<open>path.is_file()\<close> raises, which \<^verbatim>\<open>process_file\<close> logs.
  \<^verbatim>\<open>pending_imports\<close> is unchanged, so the entry is still there and a later poll
  that finds it promotable collects it again.
\<close>

theorem closed_dispatches_and_keeps_entry:
  assumes "\<not> is_directory event" and "src_path event \<in> fst ` set (pending_imports s)"
  shows "on_closed cfg pl env s event = process_file cfg pl env (emit (Sleep 2) s) (src_path event) \<and>
         on_closed cfg pl (env\<lparr>clock := c, path_exists := ex, stat_size := sz, stat_mtime := mt\<rparr>) s event
           = on_closed cfg pl env s event \<and>
         (path_str pl (src_path event) \<notin> processed_files s \<longrightarrow>
            subprocess_runs (trace (snd (on_closed cfg pl env s event)))
              = subprocess_runs (trace s) + (if launches env (src_path event) then 1 else 0)) \<and>
         pending_imports (snd (on_closed cfg pl env s event)) = pending_imports s \<and>
         (\<forall>entry. entry \<in> set (pending_imports s) \<and> promotable cfg env' now entry \<longrightarrow>
            fst entry \<in> set (collect_ready cfg env' now
                               (pending_imports (snd (on_closed cfg pl env s event)))))"
proof -
  have a: "on_closed cfg pl env s event = process_file cfg pl env (emit (Sleep 2) s) (src_path event)"
    using assms by (simp add: on_closed_def)
  have b: "on_closed cfg pl (env\<lparr>clock := c, path_exists := ex, stat_size := sz, stat_mtime := mt\<rparr>) s event
           = on_closed cfg pl env s event"
    unfolding on_closed_def
    by (simp add: process_file_env [of "env\<lparr>clock := c, path_exists := ex, stat_size := sz, stat_mtime := mt\<rparr>" env])
  have c: "subprocess_runs (trace (snd (on_closed cfg pl env s event)))
             = subprocess_runs (trace s) + (if launches env (src_path event) then 1 else 0)"
    if "path_str pl (src_path event) \<notin> processed_files s"
    using that by (simp add: a process_file_counts)
  have d: "pending_imports (snd (on_closed cfg pl env s event)) = pending_imports s"
    by (rule on_closed_pending)
  have e: "fst entry \<in> set (collect_ready cfg env' now
                               (pending_imports (snd (on_closed cfg pl env s event))))"
    if "entry \<in> set (pending_imports s) \<and> promotable cfg env' now entry" for entry
    using that by (simp add: d collect_ready_filter)
  from a b c d e show ?thesis by blast
qed

theorem closed_dispatches_and_keeps_entry_witness:
  "on_closed default_config posix (world 100 0 100 (Completed 1 [] []) (Response 204))
     (init_state\<lparr>pending_imports := [(''/dl/a.flac'', 99)]\<rparr>)
     \<lparr>is_directory = False, src_path = ''/dl/a.flac''\<rparr>
   = (Returned,
      \<lparr> pending_imports = [(''/dl/a.flac'', 99)], processed_files = {},
        trace = [Sleep 2, Log INFO Processing,
                 Subprocess [''beet'', ''-c'', ''beets-config/config.yaml'', ''import'', ''-q'',
                             ''--noautotag'', ''--move'', ''/dl''],
                 Log WARNING NonZeroExit, Log DEBUG BeetsOutput, Log DEBUG BeetsError] \<rparr>) \<and>
   process_pending default_config posix (world 200 5 100 (Completed 0 [] []) (Response 204))
     (snd (on_closed default_config posix (world 100 0 100 (Completed 1 [] []) (Response 204))
        (init_state\<lparr>pending_imports := [(''/dl/a.flac'', 99)]\<rparr>)
        \<lparr>is_directory = False, src_path = ''/dl/a.flac''\<rparr>))
   = (Returned,
      \<lparr> pending_imports = [], processed_files = {''/dl/a.flac''},
        trace = [Sleep 2, Log INFO Processing,
                 Subprocess [''beet'', ''-c'', ''beets-config/config.yaml'', ''import'', ''-q'',
                             ''--noautotag'', ''--move'', ''/dl''],
                 Log WARNING NonZeroExit, Log DEBUG BeetsOutput, Log DEBUG BeetsError,
                 Log INFO Processing,
                 Subprocess [''beet'', ''-c'', ''beets-config/config.yaml'', ''import'', ''-q'',
                             ''--noautotag'', ''--move'', ''/dl''],
                 Log INFO Succeeded, Log WARNING NoApiKey] \<rparr>) \<and>
   on_closed default_config posix
     ((world 100 0 100 (Completed 0 [] []) (Response 204))\<lparr>is_file := (\<lambda>_. Inl PermissionDenied)\<rparr>)
     (init_state\<lparr>pending_imports := [(''/dl/a.flac'', 99)]\<rparr>)
     \<lparr>is_directory = False, src_path = ''/dl/a.flac''\<rparr>
   = (Returned,
      \<lparr> pending_imports = [(''/dl/a.flac'', 99)], processed_files = {},
        trace = [Sleep 2, Log INFO Processing, Log ERROR ProcessingError] \<rparr>)"
proof -
  let ?s = "init_state\<lparr>pending_imports := [(''/dl/a.flac'', 99)]\<rparr>"
  let ?ev = "\<lparr>is_directory = False, src_path = ''/dl/a.flac''\<rparr>"
  let ?env = "world 100 0 100 (Completed 1 [] []) (Response 204)"
  have 1: "\<not> is_directory ?ev" by simp
  have 2: "src_path ?ev \<in> fst ` set (pending_imports ?s)" by (simp add: init_state_def)
  note a = closed_dispatches_and_keeps_entry [OF 1 2, of default_config posix ?env, THEN conjunct1]
  have b: "process_file default_config posix ?env (emit (Sleep 2) ?s) (src_path ?ev)
    = (Returned,
      \<lparr> pending_imports = [(''/dl/a.flac'', 99)], processed_files = {},
        trace = [Sleep 2, Log INFO Processing,
                 Subprocess [''beet'', ''-c'', ''beets-config/config.yaml'', ''import'', ''-q'',
                             ''--noautotag'', ''--move'', ''/dl''],
                 Log WARNING NonZeroExit, Log DEBUG BeetsOutput, Log DEBUG BeetsError] \<rparr>)"
    by (simp add: process_file_def eval_defs)
  have c: "on_closed default_config posix
     ((world 100 0 100 (Completed 0 [] []) (Response 204))\<lparr>is_file := (\<lambda>_. Inl PermissionDenied)\<rparr>)
     ?s ?ev
   = (Returned,
      \<lparr> pending_imports = [(''/dl/a.flac'', 99)], processed_files = {},
        trace = [Sleep 2, Log INFO Processing, Log ERROR ProcessingError] \<rparr>)"
    by (simp add: on_closed_def process_file_def eval_defs)
  show ?thesis
    unfolding a b c
    by (simp add: process_pending_def process_file_def trigger_jellyfin_rescan_def eval_defs)
qed

end
